theory Spec2Isabelle
  imports Main "HOL-Library.Word" "HOL-Library.Sublist"
begin

section \<open>Strings and regular expressions of the source language\<close>

text \<open>
  A JavaScript string is a sequence of 16-bit code units; \<open>length\<close>, \<open>substring\<close> and the
  regular expression matcher (without the \<open>u\<close> flag) all count and compare code units.
\<close>

type_synonym jsstring = "16 word list"

text \<open>A string literal of the source, all of whose characters are ASCII.\<close>

definition js :: "string \<Rightarrow> jsstring" where
  "js s = map of_char s"

text \<open>
  Every pattern of \<open>index.ts\<close> that \<open>auditPrompts\<close> uses carries the \<open>i\<close> flag and consists of
  ASCII characters. Under \<open>i\<close> (and no \<open>u\<close>) two code units match when their canonical forms
  agree; the canonical form of an ASCII lower-case letter is the upper-case letter, every
  other ASCII code unit is its own canonical form, and a code unit from 128 on never has an
  ASCII canonical form. Compared with an ASCII pattern character, that is the function below.
\<close>

definition canonicalize :: "16 word \<Rightarrow> 16 word" where
  "canonicalize ch = (if 97 \<le> ch \<and> ch \<le> 122 then ch - 32 else ch)"

text \<open>The line terminators, which \<open>.\<close> does not match: LF, CR, U+2028, U+2029.\<close>

definition line_terminator :: "16 word \<Rightarrow> bool" where
  "line_terminator ch = (ch = 0x000A \<or> ch = 0x000D \<or> ch = 0x2028 \<or> ch = 0x2029)"

text \<open>
  The pattern syntax in use: runs of literal characters, \<open>.*\<close>, \<open>r?\<close>, alternation,
  sequence and the end anchor \<open>$\<close>.
\<close>

datatype rx =
    Lit string
  | AnyStar
  | Opt rx
  | Alt rx rx
  | Seq rx rx
  | Eol

fun lit_match :: "string \<Rightarrow> jsstring \<Rightarrow> jsstring option" where
  "lit_match [] s = Some s"
| "lit_match (p # ps) [] = None"
| "lit_match (p # ps) (c # cs) =
     (if canonicalize c = canonicalize (of_char p) then lit_match ps cs else None)"

text \<open>\<open>.*\<close> is greedy: the longest run of non-terminators is tried first.\<close>

fun any_star :: "jsstring \<Rightarrow> jsstring list" where
  "any_star [] = [[]]"
| "any_star (c # cs) = (if line_terminator c then [c # cs] else any_star cs @ [c # cs])"

text \<open>
  The backtracking matcher: every way in which the pattern matches a prefix of the input,
  as the rest of the input after the match, in the order in which the engine tries them.
\<close>

fun rx_match :: "rx \<Rightarrow> jsstring \<Rightarrow> jsstring list" where
  "rx_match (Lit p) s = (case lit_match p s of None \<Rightarrow> [] | Some t \<Rightarrow> [t])"
| "rx_match AnyStar s = any_star s"
| "rx_match (Opt r) s = rx_match r s @ [s]"
| "rx_match (Alt a b) s = rx_match a s @ rx_match b s"
| "rx_match (Seq a b) s = concat (map (rx_match b) (rx_match a s))"
| "rx_match Eol s = (if s = [] then [s] else [])"

text \<open>The leftmost match: the start position advances until the pattern matches.\<close>

fun search :: "rx \<Rightarrow> jsstring \<Rightarrow> jsstring option" where
  "search r [] = (case rx_match r [] of [] \<Rightarrow> None | t # _ \<Rightarrow> Some t)"
| "search r (c # cs) = (case rx_match r (c # cs) of [] \<Rightarrow> search r cs | t # _ \<Rightarrow> Some t)"

text \<open>
  A regular expression object. It has one mutable property, \<open>lastIndex\<close>, which \<open>test\<close>
  reads and writes only when the \<open>g\<close> flag is set.
\<close>

record regexp =
  source :: rx
  global :: bool
  lastIndex :: nat

text \<open>A literal \<open>/.../i\<close>: a new object, not global, \<open>lastIndex\<close> 0.\<close>

definition regexp_i :: "rx \<Rightarrow> regexp" where
  "regexp_i r = \<lparr>source = r, global = False, lastIndex = 0\<rparr>"

text \<open>
  \<open>RegExp.prototype.test\<close>: the answer and the object after the call. Without \<open>g\<close> the
  search starts at 0 and \<open>lastIndex\<close> is left alone; with \<open>g\<close> it starts at \<open>lastIndex\<close>,
  which becomes the end of the match, or 0 when there is none.
\<close>

definition regexp_test :: "regexp \<Rightarrow> jsstring \<Rightarrow> bool \<times> regexp" where
  "regexp_test R S =
     (let i = (if global R then lastIndex R else 0) in
      if length S < i then (False, if global R then R\<lparr>lastIndex := 0\<rparr> else R)
      else case search (source R) (drop i S) of
             None \<Rightarrow> (False, if global R then R\<lparr>lastIndex := 0\<rparr> else R)
           | Some t \<Rightarrow> (True, if global R then R\<lparr>lastIndex := length S - length t\<rparr> else R))"

section \<open>The pattern tables of \<open>index.ts\<close>\<close>

text \<open>\<open>USER_FACING_PATTERNS\<close>, lines 200 to 207.\<close>

definition USER_FACING_PATTERNS :: "regexp list" where
  "USER_FACING_PATTERNS =
    [regexp_i (Alt (Seq (Lit ''copy'') (Seq AnyStar (Lit ''button'')))
                (Alt (Lit ''copyable'') (Lit ''clipboard''))),
     regexp_i (Alt (Seq (Lit ''onClick'') (Seq AnyStar (Lit ''copy''))) (Lit ''handleCopy'')),
     regexp_i (Alt (Lit ''data-prompt'') (Seq (Lit ''promptText'') (Seq AnyStar (Lit ''prop'')))),
     regexp_i (Alt (Seq (Lit ''user'') (Seq AnyStar (Seq (Lit ''can'') (Seq AnyStar (Lit ''copy'')))))
                   (Seq (Lit ''copy'') (Seq AnyStar (Seq (Lit ''to'') (Seq AnyStar (Lit ''clipboard'')))))),
     regexp_i (Alt (Lit ''<pre>'') (Alt (Lit ''<code>'') (Lit ''CodeBlock''))),
     regexp_i (Alt (Seq (Lit ''PROMPT_'') (Seq AnyStar (Lit ''.txt'')))
                   (Seq (Lit ''public/'') (Seq AnyStar (Lit ''prompt''))))]"

text \<open>\<open>INTERNAL_PATTERNS\<close>, lines 210 to 215.\<close>

definition INTERNAL_PATTERNS :: "regexp list" where
  "INTERNAL_PATTERNS =
    [regexp_i (Alt (Lit ''api/'') (Alt (Lit ''server'') (Lit ''backend''))),
     regexp_i (Alt (Lit ''process.env'') (Lit ''getServerSide'')),
     regexp_i (Alt (Lit ''internal'') (Alt (Lit ''private'') (Lit ''system''))),
     regexp_i (Alt (Lit ''.server.'') (Alt (Lit ''route.ts'') (Lit ''api/'')))]"

text \<open>
  The two tables are module-level constants: their objects live as long as the server and
  are shared by all calls. They are the state that \<open>auditPrompts\<close> can touch.
\<close>

record patterns =
  user_facing_patterns :: "regexp list"
  internal_patterns :: "regexp list"

definition module_patterns :: patterns where
  "module_patterns =
     \<lparr>user_facing_patterns = USER_FACING_PATTERNS, internal_patterns = INTERNAL_PATTERNS\<rparr>"

text \<open>
  \<open>PATTERNS.some(p => p.test(surrounding) || p.test(filePath))\<close>: both \<open>||\<close> and \<open>some\<close>
  stop at the first \<open>true\<close>.
\<close>

fun some_test :: "regexp list \<Rightarrow> jsstring \<Rightarrow> jsstring \<Rightarrow> bool \<times> regexp list" where
  "some_test [] surrounding filePath = (False, [])"
| "some_test (p # ps) surrounding filePath =
     (case regexp_test p surrounding of
        (True, p1) \<Rightarrow> (True, p1 # ps)
      | (False, p1) \<Rightarrow>
          (case regexp_test p1 filePath of
             (True, p2) \<Rightarrow> (True, p2 # ps)
           | (False, p2) \<Rightarrow>
               (case some_test ps surrounding filePath of (b, ps') \<Rightarrow> (b, p2 # ps'))))"

section \<open>The data of \<open>index.ts\<close>\<close>

text \<open>
  The three fields that an element of \<open>args.prompts\<close> and a \<open>PromptCandidate\<close> share; the
  element adds the optional \<open>surroundingCode\<close>, the candidate its classification. The source's
  field \<open>context\<close> is \<open>ctx\<close> here. The line number is copied and never looked at; the
  counts and the confidence are small non-negative integers.
\<close>

datatype context_kind = User_facing | Internal | Unknown

datatype action = Register_badge | Audit_only | Review

record located =
  filePath :: jsstring
  lineNumber :: int
  promptText :: jsstring

record prompt = located +
  surroundingCode :: "jsstring option"

record PromptCandidate = located +
  ctx :: context_kind
  confidence :: nat
  suggestedAction :: action
  preview :: jsstring

record AuditResult =
  totalFound :: nat
  userFacing :: nat
  internal :: nat
  needsReview :: nat
  prompts :: "PromptCandidate list"
  summary :: jsstring

section \<open>\<open>auditPrompts\<close>, lines 221 to 298\<close>

text \<open>Lines 262 to 267: the suggested action, from the context and the confidence.\<close>

definition suggested_action :: "context_kind \<Rightarrow> nat \<Rightarrow> action" where
  "suggested_action context conf =
     (if context = User_facing \<and> 70 \<le> conf then Register_badge
      else if context = Internal \<and> 70 \<le> conf then Audit_only
      else Review)"

text \<open>Line 270: the preview.\<close>

definition make_preview :: "jsstring \<Rightarrow> jsstring" where
  "make_preview t = take 100 t @ (if 100 < length t then js ''...'' else [])"

text \<open>
  Lines 238 to 240: the three path patterns are literals inside the loop, so each pass
  makes new objects for them and nothing of them outlives the call of \<open>test\<close>.
\<close>

definition isPublicFile :: "jsstring \<Rightarrow> bool" where
  "isPublicFile path = fst (regexp_test
     (regexp_i (Alt (Lit ''public/'') (Seq (Lit ''PROMPT_'') (Seq AnyStar (Lit ''.txt''))))) path)"

definition isApiFile :: "jsstring \<Rightarrow> bool" where
  "isApiFile path = fst (regexp_test
     (regexp_i (Alt (Lit ''api/'') (Alt (Lit ''.server.'') (Lit ''route.ts'')))) path)"

definition isComponentFile :: "jsstring \<Rightarrow> bool" where
  "isComponentFile path = fst (regexp_test
     (regexp_i (Alt (Seq (Lit ''component'') (Seq (Opt (Lit ''s'')) (Lit ''/'')))
                    (Seq (Lit ''.tsx'') Eol))) path)"

text \<open>Line 232, \<open>prompt.surroundingCode || ''\<close>: a missing field reads as the empty string.\<close>

definition surrounding_of :: "prompt \<Rightarrow> jsstring" where
  "surrounding_of p = (case surroundingCode p of None \<Rightarrow> [] | Some s \<Rightarrow> s)"

text \<open>
  The body of the loop, lines 231 to 280, for one element of \<open>args.prompts\<close>. The two
  tables are the shared ones, and come back as the calls of \<open>test\<close> left them.
\<close>

definition classify :: "prompt \<Rightarrow> patterns \<Rightarrow> PromptCandidate \<times> patterns" where
  "classify p st =
     (let surrounding = surrounding_of p;
          path = filePath p;
          (hasUserFacingIndicators, ufp) = some_test (user_facing_patterns st) surrounding path;
          (hasInternalIndicators, ip) = some_test (internal_patterns st) surrounding path;
          (context, conf) =
            (if isPublicFile path \<or> hasUserFacingIndicators
               then (User_facing, if isPublicFile path then 95 else 75)
             else if isApiFile path \<or> hasInternalIndicators
               then (Internal, if isApiFile path then 90 else 70)
             else if isComponentFile path
               then (if hasUserFacingIndicators then User_facing else Unknown, 60)
             else (Unknown, 50))
      in (\<lparr>filePath = filePath p, lineNumber = lineNumber p, promptText = promptText p,
           ctx = context, confidence = conf,
           suggestedAction = suggested_action context conf,
           preview = make_preview (promptText p)\<rparr>,
          \<lparr>user_facing_patterns = ufp, internal_patterns = ip\<rparr>))"

text \<open>The loop: each candidate is pushed at the end of \<open>candidates\<close>.\<close>

fun audit_loop ::
  "prompt list \<Rightarrow> PromptCandidate list \<Rightarrow> patterns \<Rightarrow> PromptCandidate list \<times> patterns" where
  "audit_loop [] candidates st = (candidates, st)"
| "audit_loop (p # ps) candidates st =
     (case classify p st of (c, st') \<Rightarrow> audit_loop ps (candidates @ [c]) st')"

text \<open>
  A count in a template literal: the decimal digits of a non-negative integer (an array
  length is below \<open>2 ^ 32\<close>, far from where the exponent notation starts).
\<close>

function number_toString :: "nat \<Rightarrow> string" where
  "number_toString n =
     (if n < 10 then [char_of (48 + n)]
      else number_toString (n div 10) @ [char_of (48 + n mod 10)])"
  by pat_completeness auto
termination
  by (relation "measure id") auto

declare number_toString.simps [simp del]

definition auditPrompts :: "prompt list \<Rightarrow> patterns \<Rightarrow> AuditResult \<times> patterns" where
  "auditPrompts args_prompts st =
     (case audit_loop args_prompts [] st of
        (candidates, st') \<Rightarrow>
          (let n_userFacing = length (filter (\<lambda>c. ctx c = User_facing) candidates);
               n_internal = length (filter (\<lambda>c. ctx c = Internal) candidates);
               n_needsReview =
                 length (filter (\<lambda>c. ctx c = Unknown \<or> confidence c < 70) candidates);
               summary_line = js (''Found '' @ number_toString (length candidates) @ '' prompts: ''
                 @ number_toString n_userFacing @ '' user-facing (recommend badges), ''
                 @ number_toString n_internal @ '' internal (audit only), ''
                 @ number_toString n_needsReview @ '' need manual review.'')
           in (\<lparr>totalFound = length candidates, userFacing = n_userFacing,
                internal = n_internal, needsReview = n_needsReview, prompts = candidates,
                summary = summary_line\<rparr>, st')))"

section \<open>The \<open>audit_prompts\<close> tool, lines 573 to 645\<close>

datatype mcp_error = InvalidParams string | MethodNotFound string

text \<open>
  The handler's case for \<open>audit_prompts\<close>. Its argument is \<open>None\<close> when \<open>args.prompts\<close> is
  missing or not an array. The answer is the object that the handler serialises; the
  \<open>guidance\<close> text that it adds to the result of a non-empty batch is a rendering of that
  result and is left out.
\<close>

definition audit_prompts ::
  "prompt list option \<Rightarrow> patterns \<Rightarrow> (mcp_error + AuditResult) \<times> patterns" where
  "audit_prompts args_prompts st =
     (case args_prompts of
        None \<Rightarrow> (Inl (InvalidParams ''prompts array is required''), st)
      | Some ps \<Rightarrow>
          if length ps = 0
          then (Inr \<lparr>totalFound = 0, userFacing = 0, internal = 0, needsReview = 0,
                     prompts = [], summary = js ''No prompts provided for analysis.''\<rparr>, st)
          else (case auditPrompts ps st of (result, st') \<Rightarrow> (Inr result, st')))"

section \<open>Example requests\<close>

text \<open>
  The inputs of the scenarios that the specification lists, and three more: a public file
  under an API-like path, a prompt that itself ends in three dots, and a long prompt.
\<close>

definition banner :: prompt where
  "banner = \<lparr>filePath = js ''src/components/Banner.tsx'', lineNumber = 12,
     promptText = js ''You are a helpful assistant.'',
     surroundingCode = Some (js ''<code>{prompt}</code>'')\<rparr>"

definition route :: prompt where
  "route = \<lparr>filePath = js ''src/api/chat/route.ts'', lineNumber = 7,
     promptText = js ''short'', surroundingCode = Some (js ''process.env.OPENAI_KEY'')\<rparr>"

definition config :: prompt where
  "config = \<lparr>filePath = js ''src/lib/config.ts'', lineNumber = 1,
     promptText = js ''You are an assistant.'', surroundingCode = Some []\<rparr>"

definition public_api :: prompt where
  "public_api = \<lparr>filePath = js ''public/api/route.ts'', lineNumber = 3,
     promptText = js ''Summarise the page.'', surroundingCode = Some (js ''process.env'')\<rparr>"

definition loading :: prompt where
  "loading = \<lparr>filePath = js ''src/lib/config.ts'', lineNumber = 2,
     promptText = js ''Loading...'', surroundingCode = None\<rparr>"

definition long_prompt :: prompt where
  "long_prompt = \<lparr>filePath = js ''public/PROMPT_welcome.txt'', lineNumber = 1,
     promptText = replicate 150 (of_char CHR ''a''), surroundingCode = None\<rparr>"

text \<open>A batch of three, and the answer of the tool to it.\<close>

definition batch :: "prompt list" where
  "batch = [banner, route, config]"

definition batch_answer :: AuditResult where
  "batch_answer =
     \<lparr>totalFound = 3, userFacing = 1, internal = 1, needsReview = 1,
      prompts =
        [\<lparr>filePath = js ''src/components/Banner.tsx'', lineNumber = 12,
          promptText = js ''You are a helpful assistant.'', ctx = User_facing, confidence = 75,
          suggestedAction = Register_badge, preview = js ''You are a helpful assistant.''\<rparr>,
         \<lparr>filePath = js ''src/api/chat/route.ts'', lineNumber = 7, promptText = js ''short'',
          ctx = Internal, confidence = 90, suggestedAction = Audit_only,
          preview = js ''short''\<rparr>,
         \<lparr>filePath = js ''src/lib/config.ts'', lineNumber = 1,
          promptText = js ''You are an assistant.'', ctx = Unknown, confidence = 50,
          suggestedAction = Review, preview = js ''You are an assistant.''\<rparr>],
      summary = js (''Found 3 prompts: 1 user-facing (recommend badges), ''
        @ ''1 internal (audit only), 1 need manual review.'')\<rparr>"

section \<open>Notions of the specification\<close>

text \<open>
  "Contains, case-insensitively": the code units \<open>m\<close> spell the ASCII text \<open>p\<close> up to the
  case of letters.
\<close>

definition same_ci :: "string \<Rightarrow> jsstring \<Rightarrow> bool" where
  "same_ci p m = (map canonicalize m = map canonicalize (js p))"

text \<open>The number that a string of decimal digits denotes.\<close>

definition decimal_value :: "string \<Rightarrow> nat" where
  "decimal_value ds = foldl (\<lambda>a d. 10 * a + (of_char d - 48)) 0 ds"

text \<open>
  "Found {totalFound} prompts: {userFacing} user-facing (recommend badges), {internal}
  internal (audit only), {needsReview} need manual review.", the four counts in decimal.
\<close>

definition summary_template :: "nat \<Rightarrow> nat \<Rightarrow> nat \<Rightarrow> nat \<Rightarrow> jsstring" where
  "summary_template t u i n =
     js ''Found '' @ js (number_toString t) @ js '' prompts: '' @ js (number_toString u)
     @ js '' user-facing (recommend badges), '' @ js (number_toString i)
     @ js '' internal (audit only), '' @ js (number_toString n)
     @ js '' need manual review.''"

section \<open>Facts about the model\<close>

subsection \<open>A pattern without \<open>g\<close> is never written\<close>

lemma regexp_test_not_global:
  "\<not> global R \<Longrightarrow> regexp_test R S = (search (source R) S \<noteq> None, R)"
  by (simp add: regexp_test_def split: option.splits)

lemma some_test_not_global:
  "list_all (\<lambda>R. \<not> global R) ps \<Longrightarrow> snd (some_test ps a b) = ps"
proof (induction ps)
  case Nil
  show ?case by simp
next
  case (Cons R ps)
  then have R: "\<not> global R" and ps: "snd (some_test ps a b) = ps" by simp_all
  show ?case
    using ps by (simp add: regexp_test_not_global [OF R] case_prod_beta split: bool.splits)
qed

lemma tables_not_global:
  "list_all (\<lambda>R. \<not> global R) USER_FACING_PATTERNS"
  "list_all (\<lambda>R. \<not> global R) INTERNAL_PATTERNS"
  by (simp_all add: USER_FACING_PATTERNS_def INTERNAL_PATTERNS_def regexp_i_def)

lemma classify_state:
  "snd (classify p module_patterns) = module_patterns"
  using some_test_not_global [OF tables_not_global(1), of "surrounding_of p" "filePath p"]
    some_test_not_global [OF tables_not_global(2), of "surrounding_of p" "filePath p"]
  by (simp add: classify_def module_patterns_def Let_def case_prod_beta)

lemma audit_loop_module:
  "audit_loop ps acc module_patterns =
     (acc @ map (\<lambda>p. fst (classify p module_patterns)) ps, module_patterns)"
proof (induction ps arbitrary: acc)
  case Nil
  show ?case by simp
next
  case (Cons p ps)
  obtain c where c: "classify p module_patterns = (c, module_patterns)"
    using classify_state [of p] by (cases "classify p module_patterns") simp
  show ?case by (simp add: c Cons.IH)
qed

lemma audit_loop_all:
  assumes P: "\<And>p s. P (fst (classify p s))"
  shows "list_all P acc \<Longrightarrow> list_all P (fst (audit_loop ps acc st))"
proof (induction ps arbitrary: acc st)
  case Nil
  then show ?case by simp
next
  case (Cons p ps)
  obtain c s where c: "classify p st = (c, s)" by (cases "classify p st")
  have "P c" using P [of p st] by (simp add: c)
  with Cons.prems have "list_all P (acc @ [c])" by simp
  from Cons.IH [OF this, of s] show ?case by (simp add: c)
qed

lemma audit_loop_length:
  "length (fst (audit_loop ps acc st)) = length acc + length ps"
proof (induction ps arbitrary: acc st)
  case Nil
  show ?case by simp
next
  case (Cons p ps)
  obtain c s where c: "classify p st = (c, s)" by (cases "classify p st")
  show ?case using Cons.IH [of "acc @ [c]" s] by (simp add: c)
qed

lemma classify_fields:
  "filePath (fst (classify p st)) = filePath p"
  "lineNumber (fst (classify p st)) = lineNumber p"
  "promptText (fst (classify p st)) = promptText p"
  "preview (fst (classify p st)) = make_preview (promptText p)"
  "suggestedAction (fst (classify p st)) =
     suggested_action (ctx (fst (classify p st))) (confidence (fst (classify p st)))"
  by (simp_all add: classify_def Let_def case_prod_beta)

lemma classify_table:
  "(ctx (fst (classify p st)), confidence (fst (classify p st))) \<in>
     {(User_facing, 95), (User_facing, 75), (Internal, 90), (Internal, 70),
      (Unknown, 60), (Unknown, 50)}"
  by (simp add: classify_def Let_def case_prod_beta)

lemma auditPrompts_fields:
  "totalFound (fst (auditPrompts ps st)) = length (prompts (fst (auditPrompts ps st)))"
  "userFacing (fst (auditPrompts ps st)) =
     length (filter (\<lambda>c. ctx c = User_facing) (prompts (fst (auditPrompts ps st))))"
  "internal (fst (auditPrompts ps st)) =
     length (filter (\<lambda>c. ctx c = Internal) (prompts (fst (auditPrompts ps st))))"
  "needsReview (fst (auditPrompts ps st)) =
     length (filter (\<lambda>c. ctx c = Unknown \<or> confidence c < 70) (prompts (fst (auditPrompts ps st))))"
  "prompts (fst (auditPrompts ps st)) = fst (audit_loop ps [] st)"
  by (simp_all add: auditPrompts_def Let_def case_prod_beta)

subsection \<open>The handler\<close>

lemma audit_prompts_some:
  "audit_prompts (Some ps) st =
     (if ps = []
      then (Inr \<lparr>totalFound = 0, userFacing = 0, internal = 0, needsReview = 0, prompts = [],
                 summary = js ''No prompts provided for analysis.''\<rparr>, st)
      else (Inr (fst (auditPrompts ps st)), snd (auditPrompts ps st)))"
  by (simp add: audit_prompts_def case_prod_beta)

lemma auditPrompts_module:
  "snd (auditPrompts ps module_patterns) = module_patterns"
  "prompts (fst (auditPrompts ps module_patterns)) =
     map (\<lambda>p. fst (classify p module_patterns)) ps"
  by (simp_all add: auditPrompts_def audit_loop_module Let_def)

lemma audit_prompts_result:
  assumes "audit_prompts (Some ps) st = (Inr r, st')"
  shows "r = (if ps = []
              then \<lparr>totalFound = 0, userFacing = 0, internal = 0, needsReview = 0, prompts = [],
                    summary = js ''No prompts provided for analysis.''\<rparr>
              else fst (auditPrompts ps st))"
    and "st' = (if ps = [] then st else snd (auditPrompts ps st))"
  using assms by (simp_all add: audit_prompts_some split: if_splits)

lemma audit_prompts_module:
  assumes "audit_prompts (Some ps) module_patterns = (Inr r, st')"
  shows "st' = module_patterns"
    and "prompts r = map (\<lambda>p. fst (classify p module_patterns)) ps"
  by (simp_all add: audit_prompts_result [OF assms] auditPrompts_module)

lemma audit_prompts_counts:
  assumes "audit_prompts (Some ps) st = (Inr r, st')"
  shows "totalFound r = length (prompts r)"
    and "length (prompts r) = length ps"
    and "userFacing r = length (filter (\<lambda>c. ctx c = User_facing) (prompts r))"
    and "internal r = length (filter (\<lambda>c. ctx c = Internal) (prompts r))"
    and "needsReview r =
           length (filter (\<lambda>c. ctx c = Unknown \<or> confidence c < 70) (prompts r))"
proof -
  note r = audit_prompts_result(1) [OF assms]
  show "totalFound r = length (prompts r)"
    and "userFacing r = length (filter (\<lambda>c. ctx c = User_facing) (prompts r))"
    and "internal r = length (filter (\<lambda>c. ctx c = Internal) (prompts r))"
    and "needsReview r =
           length (filter (\<lambda>c. ctx c = Unknown \<or> confidence c < 70) (prompts r))"
    by (simp_all add: r auditPrompts_fields(1-4))
  show "length (prompts r) = length ps"
    using audit_loop_length [of ps "[]" st] by (simp add: r auditPrompts_fields(5))
qed

lemma audit_prompts_all:
  assumes "audit_prompts (Some ps) st = (Inr r, st')" and P: "\<And>p s. P (fst (classify p s))"
  shows "list_all P (prompts r)"
proof -
  have "list_all P (fst (audit_loop ps [] st))"
    using audit_loop_all [of P "[]" ps st] P by simp
  then show ?thesis
    by (simp add: audit_prompts_result(1) [OF assms(1)] auditPrompts_fields(5))
qed

subsection \<open>What the matcher accepts\<close>

lemma lit_match_iff:
  "lit_match p s = Some t \<longleftrightarrow> (\<exists>m. s = m @ t \<and> same_ci p m)"
proof (induction p s rule: lit_match.induct)
  case (1 s)
  show ?case by (simp add: same_ci_def js_def)
next
  case (2 p ps)
  show ?case by (simp add: same_ci_def js_def)
next
  case (3 p ps c cs)
  show ?case
  proof (cases "canonicalize c = canonicalize (of_char p)")
    case True
    have "(\<exists>m. c # cs = m @ t \<and> same_ci (p # ps) m) \<longleftrightarrow> (\<exists>m. cs = m @ t \<and> same_ci ps m)"
      (is "?L \<longleftrightarrow> ?R")
    proof
      assume ?L
      then obtain m where m: "c # cs = m @ t" "same_ci (p # ps) m" by blast
      from m(2) obtain d ds where d: "m = d # ds" by (cases m) (auto simp: same_ci_def js_def)
      with m show ?R by (auto simp: same_ci_def js_def)
    next
      assume ?R
      then obtain m where "cs = m @ t" "same_ci ps m" by blast
      with True have "c # cs = (c # m) @ t \<and> same_ci (p # ps) (c # m)"
        by (simp add: same_ci_def js_def)
      then show ?L by blast
    qed
    with True 3 show ?thesis by simp
  next
    case False
    have "\<not> (\<exists>m. c # cs = m @ t \<and> same_ci (p # ps) m)"
    proof
      assume "\<exists>m. c # cs = m @ t \<and> same_ci (p # ps) m"
      then obtain m where m: "c # cs = m @ t" "same_ci (p # ps) m" by blast
      from m(2) obtain d ds where d: "m = d # ds" by (cases m) (auto simp: same_ci_def js_def)
      with m False show False by (auto simp: same_ci_def js_def)
    qed
    with False show ?thesis by simp
  qed
qed

lemma any_star_iff:
  "t \<in> set (any_star s) \<longleftrightarrow> (\<exists>m. s = m @ t \<and> list_all (\<lambda>c. \<not> line_terminator c) m)"
proof (induction s)
  case Nil
  show ?case by auto
next
  case (Cons c cs)
  show ?case
  proof (cases "line_terminator c")
    case True
    have "(\<exists>m. c # cs = m @ t \<and> list_all (\<lambda>c. \<not> line_terminator c) m) \<longleftrightarrow> t = c # cs"
    proof
      assume "\<exists>m. c # cs = m @ t \<and> list_all (\<lambda>c. \<not> line_terminator c) m"
      then obtain m where m: "c # cs = m @ t" "list_all (\<lambda>c. \<not> line_terminator c) m" by blast
      with True show "t = c # cs" by (cases m) auto
    next
      assume "t = c # cs"
      then have "c # cs = [] @ t \<and> list_all (\<lambda>c. \<not> line_terminator c) []" by simp
      then show "\<exists>m. c # cs = m @ t \<and> list_all (\<lambda>c. \<not> line_terminator c) m" by blast
    qed
    with True show ?thesis by simp
  next
    case False
    have "(\<exists>m. c # cs = m @ t \<and> list_all (\<lambda>c. \<not> line_terminator c) m)
      \<longleftrightarrow> t = c # cs \<or> (\<exists>m. cs = m @ t \<and> list_all (\<lambda>c. \<not> line_terminator c) m)"
      (is "?L \<longleftrightarrow> _ \<or> ?R")
    proof
      assume ?L
      then obtain m where m: "c # cs = m @ t" "list_all (\<lambda>c. \<not> line_terminator c) m" by blast
      show "t = c # cs \<or> ?R"
      proof (cases m)
        case Nil
        with m show ?thesis by simp
      next
        case (Cons d ds)
        with m have "cs = ds @ t \<and> list_all (\<lambda>c. \<not> line_terminator c) ds" by simp
        then show ?thesis by blast
      qed
    next
      assume "t = c # cs \<or> ?R"
      then show ?L
      proof
        assume "t = c # cs"
        then have "c # cs = [] @ t \<and> list_all (\<lambda>c. \<not> line_terminator c) []" by simp
        then show ?L by blast
      next
        assume ?R
        then obtain m where "cs = m @ t" "list_all (\<lambda>c. \<not> line_terminator c) m" by blast
        with False have "c # cs = (c # m) @ t \<and> list_all (\<lambda>c. \<not> line_terminator c) (c # m)"
          by simp
        then show ?L by blast
      qed
    qed
    with False Cons show ?thesis by auto
  qed
qed

lemma search_iff:
  "search r s \<noteq> None \<longleftrightarrow> (\<exists>a t. s = a @ t \<and> rx_match r t \<noteq> [])"
proof (induction s)
  case Nil
  show ?case by (simp split: list.splits)
next
  case (Cons c cs)
  have "(\<exists>a t. c # cs = a @ t \<and> rx_match r t \<noteq> [])
    \<longleftrightarrow> rx_match r (c # cs) \<noteq> [] \<or> (\<exists>a t. cs = a @ t \<and> rx_match r t \<noteq> [])"
    (is "?L \<longleftrightarrow> _ \<or> ?R")
  proof
    assume ?L
    then obtain a t where a: "c # cs = a @ t" "rx_match r t \<noteq> []" by blast
    show "rx_match r (c # cs) \<noteq> [] \<or> ?R"
    proof (cases a)
      case Nil
      with a show ?thesis by simp
    next
      case (Cons d ds)
      with a have "cs = ds @ t \<and> rx_match r t \<noteq> []" by simp
      then show ?thesis by blast
    qed
  next
    assume "rx_match r (c # cs) \<noteq> [] \<or> ?R"
    then show ?L
    proof
      assume "rx_match r (c # cs) \<noteq> []"
      then have "c # cs = [] @ (c # cs) \<and> rx_match r (c # cs) \<noteq> []" by simp
      then show ?L by blast
    next
      assume ?R
      then obtain a t where "cs = a @ t" "rx_match r t \<noteq> []" by blast
      then have "c # cs = (c # a) @ t \<and> rx_match r t \<noteq> []" by simp
      then show ?L by blast
    qed
  qed
  with Cons show ?case by (auto split: list.splits)
qed

lemma isPublicFile_iff:
  "isPublicFile path \<longleftrightarrow>
     (\<exists>a m b. path = a @ m @ b \<and> same_ci ''public/'' m)
   \<or> (\<exists>a m g n b. path = a @ m @ g @ n @ b \<and> same_ci ''PROMPT_'' m
         \<and> list_all (\<lambda>c. \<not> line_terminator c) g \<and> same_ci ''.txt'' n)"
proof -
  have 1: "rx_match (Lit p) t \<noteq> [] \<longleftrightarrow> (\<exists>m b. t = m @ b \<and> same_ci p m)" for p t
  proof -
    have "rx_match (Lit p) t \<noteq> [] \<longleftrightarrow> (\<exists>b. lit_match p t = Some b)"
      by (cases "lit_match p t") simp_all
    then show ?thesis by (auto simp: lit_match_iff)
  qed
  have 2: "rx_match (Seq (Lit p) (Seq AnyStar (Lit q))) t \<noteq> [] \<longleftrightarrow>
     (\<exists>m g n b. t = m @ g @ n @ b \<and> same_ci p m \<and> list_all (\<lambda>c. \<not> line_terminator c) g \<and> same_ci q n)"
    (is "?L \<longleftrightarrow> ?R") for p q t
  proof
    assume ?L
    then obtain u where u: "lit_match p t = Some u"
      by (cases "lit_match p t") simp_all
    with \<open>?L\<close> have "\<exists>v \<in> set (any_star u). rx_match (Lit q) v \<noteq> []"
      by auto
    then obtain v where v: "v \<in> set (any_star u)" "rx_match (Lit q) v \<noteq> []" by blast
    from u obtain m where m: "t = m @ u" "same_ci p m" by (auto simp: lit_match_iff)
    from v(1) obtain g where g: "u = g @ v" "list_all (\<lambda>c. \<not> line_terminator c) g"
      by (auto simp: any_star_iff)
    from v(2) 1 [of q v] obtain n b where n: "v = n @ b" "same_ci q n" by blast
    from m g n have "t = m @ g @ n @ b \<and> same_ci p m \<and> list_all (\<lambda>c. \<not> line_terminator c) g \<and> same_ci q n"
      by simp
    then show ?R by blast
  next
    assume ?R
    then obtain m g n b where h: "t = m @ g @ n @ b" "same_ci p m"
      "list_all (\<lambda>c. \<not> line_terminator c) g" "same_ci q n" by blast
    have a: "lit_match p t = Some (g @ n @ b)"
      using h(1,2) by (auto simp: lit_match_iff)
    have b: "n @ b \<in> set (any_star (g @ n @ b))"
      using h(3) by (auto simp: any_star_iff)
    have c: "rx_match (Lit q) (n @ b) \<noteq> []"
      using h(4) 1 [of q "n @ b"] by blast
    show ?L using a b c by auto
  qed
  have "isPublicFile path \<longleftrightarrow>
      (\<exists>a t. path = a @ t \<and> (rx_match (Lit ''public/'') t \<noteq> []
         \<or> rx_match (Seq (Lit ''PROMPT_'') (Seq AnyStar (Lit ''.txt''))) t \<noteq> []))"
    using search_iff [of "Alt (Lit ''public/'') (Seq (Lit ''PROMPT_'') (Seq AnyStar (Lit ''.txt'')))" path]
    by (simp add: isPublicFile_def regexp_test_not_global regexp_i_def del: rx_match.simps(1,5))
  also have "\<dots> \<longleftrightarrow> (\<exists>a m b. path = a @ m @ b \<and> same_ci ''public/'' m)
   \<or> (\<exists>a m g n b. path = a @ m @ g @ n @ b \<and> same_ci ''PROMPT_'' m
         \<and> list_all (\<lambda>c. \<not> line_terminator c) g \<and> same_ci ''.txt'' n)"
    unfolding 1 2 by blast
  finally show ?thesis .
qed

subsection \<open>Counts in decimal\<close>

lemma number_toString_value: "decimal_value (number_toString n) = n"
proof (induction n rule: number_toString.induct)
  case (1 n)
  show ?case
  proof (cases "n < 10")
    case True
    then show ?thesis
      by (subst number_toString.simps) (simp add: decimal_value_def)
  next
    case False
    have "n mod 10 < 10" by simp
    then have d: "(48 + n mod 10) mod 256 = 48 + n mod 10" by simp
    have "decimal_value (number_toString n)
        = 10 * decimal_value (number_toString (n div 10)) + n mod 10"
      using False by (subst number_toString.simps) (simp add: decimal_value_def d)
    with False 1 show ?thesis by simp
  qed
qed

lemma number_toString_digits:
  "list_all (\<lambda>d. 48 \<le> (of_char d :: nat) \<and> (of_char d :: nat) \<le> 57) (number_toString n)"
proof (induction n rule: number_toString.induct)
  case (1 n)
  show ?case
  proof (cases "n < 10")
    case True
    then show ?thesis
      by (subst number_toString.simps) simp
  next
    case False
    have "n mod 10 < 10" by simp
    then have d: "(48 + n mod 10) mod 256 = 48 + n mod 10" by simp
    from False 1 show ?thesis
      by (subst number_toString.simps) (simp add: d)
  qed
qed

text \<open>Left to \<open>auditPrompts\<close>, an empty batch would get the general summary line.\<close>

lemma auditPrompts_empty_summary:
  "summary (fst (auditPrompts [] st)) \<noteq> js ''No prompts provided for analysis.''"
  by (simp add: auditPrompts_def js_def)

text \<open>The model does tell a stateful pattern: with \<open>g\<close>, a second \<open>test\<close> answers otherwise.\<close>

lemma global_pattern_is_stateful:
  "fst (regexp_test \<lparr>source = Lit ''copy'', global = True, lastIndex = 0\<rparr> (js ''copy''))
   \<and> \<not> fst (regexp_test
          (snd (regexp_test \<lparr>source = Lit ''copy'', global = True, lastIndex = 0\<rparr> (js ''copy'')))
          (js ''copy''))"
  by code_simp

subsection \<open>The examples, evaluated\<close>

lemma banner_classified:
  "fst (classify banner module_patterns) =
     \<lparr>filePath = js ''src/components/Banner.tsx'', lineNumber = 12,
      promptText = js ''You are a helpful assistant.'', ctx = User_facing, confidence = 75,
      suggestedAction = Register_badge, preview = js ''You are a helpful assistant.''\<rparr>"
  by code_simp

lemma banner_signals:
  "isComponentFile (filePath banner)" "\<not> isPublicFile (filePath banner)"
  "\<not> isApiFile (filePath banner)"
  "fst (some_test USER_FACING_PATTERNS (surrounding_of banner) (filePath banner))"
  by code_simp+

lemma route_classified:
  "fst (classify route module_patterns) =
     \<lparr>filePath = js ''src/api/chat/route.ts'', lineNumber = 7, promptText = js ''short'',
      ctx = Internal, confidence = 90, suggestedAction = Audit_only, preview = js ''short''\<rparr>"
  by code_simp

lemma config_classified:
  "fst (classify config module_patterns) =
     \<lparr>filePath = js ''src/lib/config.ts'', lineNumber = 1,
      promptText = js ''You are an assistant.'', ctx = Unknown, confidence = 50,
      suggestedAction = Review, preview = js ''You are an assistant.''\<rparr>"
  by code_simp

lemma public_api_signals:
  "isPublicFile (filePath public_api)" "isApiFile (filePath public_api)"
  "fst (some_test INTERNAL_PATTERNS (surrounding_of public_api) (filePath public_api))"
  by code_simp+

lemma batch_result:
  "audit_prompts (Some batch) module_patterns = (Inr batch_answer, module_patterns)"
proof -
  have l: "audit_loop [banner, route, config] [] module_patterns =
      ([fst (classify banner module_patterns), fst (classify route module_patterns),
        fst (classify config module_patterns)], module_patterns)"
    by (simp add: audit_loop_module)
  have n: "number_toString (Suc (Suc (Suc 0))) = ''3''" "number_toString (Suc 0) = ''1''"
    by code_simp+
  have "auditPrompts [banner, route, config] module_patterns = (batch_answer, module_patterns)"
    unfolding auditPrompts_def l batch_answer_def
    by (simp add: Let_def banner_classified route_classified config_classified n)
  then show ?thesis
    by (simp add: audit_prompts_some batch_def)
qed

section \<open>The claims\<close>

text \<open>
  C1, as stated, fails. The component file \<open>src/components/Banner.tsx\<close> with a \<open><code>\<close>
  marker around the prompt is no public file and no API file and has a user-facing
  indicator, and it is not classified as user-facing with confidence 60 and action
  \<open>review\<close>, counted in \<open>needsReview\<close>.
\<close>

theorem component_with_indicator_counterexample:
  "isComponentFile (filePath banner) \<and> \<not> isPublicFile (filePath banner)
   \<and> \<not> isApiFile (filePath banner)
   \<and> fst (some_test USER_FACING_PATTERNS (surrounding_of banner) (filePath banner))
   \<and> \<not> (ctx (fst (classify banner module_patterns)) = User_facing
        \<and> confidence (fst (classify banner module_patterns)) = 60
        \<and> suggestedAction (fst (classify banner module_patterns)) = Review
        \<and> needsReview (fst (auditPrompts [banner] module_patterns)) = 1)"
  by (simp add: banner_signals banner_classified)

text \<open>
  C1, amended. For a candidate whose path has the component-file shape and is neither a
  public file nor an API file, and whose surrounding code or path has a user-facing
  indicator, the classification is user-facing with confidence 75, the suggested action
  is \<open>register_badge\<close>, and the item does not count in \<open>needsReview\<close>: the indicator tier
  comes before the component tier.
\<close>

theorem component_with_indicator:
  assumes "isComponentFile (filePath p)"
    and "\<not> isPublicFile (filePath p)"
    and "\<not> isApiFile (filePath p)"
    and "fst (some_test USER_FACING_PATTERNS (surrounding_of p) (filePath p))"
  shows "ctx (fst (classify p module_patterns)) = User_facing
       \<and> confidence (fst (classify p module_patterns)) = 75
       \<and> suggestedAction (fst (classify p module_patterns)) = Register_badge
       \<and> needsReview (fst (auditPrompts [p] module_patterns)) = 0"
proof -
  have c: "ctx (fst (classify p module_patterns)) = User_facing"
    "confidence (fst (classify p module_patterns)) = 75"
    using assms(2,4) by (simp_all add: classify_def module_patterns_def Let_def case_prod_beta)
  have "suggestedAction (fst (classify p module_patterns)) = Register_badge"
    by (simp add: classify_fields(5) c suggested_action_def)
  moreover have "needsReview (fst (auditPrompts [p] module_patterns)) = 0"
    by (simp add: auditPrompts_fields(4) auditPrompts_module(2) c)
  ultimately show ?thesis
    using c by simp
qed

theorem component_with_indicator_witness:
  "isComponentFile (filePath banner) \<and> \<not> isPublicFile (filePath banner)
   \<and> \<not> isApiFile (filePath banner)
   \<and> fst (some_test USER_FACING_PATTERNS (surrounding_of banner) (filePath banner))
   \<and> ctx (fst (classify banner module_patterns)) = User_facing
   \<and> confidence (fst (classify banner module_patterns)) = 75
   \<and> suggestedAction (fst (classify banner module_patterns)) = Register_badge
   \<and> needsReview (fst (auditPrompts [banner] module_patterns)) = 0"
  using component_with_indicator [OF banner_signals] banner_signals
  by simp

text \<open>
  C2, as stated, fails: the prompt "Loading..." is ten code units long and its preview,
  the prompt itself, ends in three dots.
\<close>

theorem preview_counterexample:
  "\<not> (length (preview (fst (classify loading module_patterns))) \<le> 103
      \<and> (suffix (js ''...'') (preview (fst (classify loading module_patterns)))
           \<longleftrightarrow> 100 < length (promptText loading))
      \<and> (length (promptText loading) \<le> 100
           \<longrightarrow> preview (fst (classify loading module_patterns)) = promptText loading))"
  by (simp add: classify_fields(4) make_preview_def loading_def js_def suffix_def)

text \<open>
  C2, amended. The preview is at most 103 code units long. If the prompt is longer than
  100, the preview is its first 100 code units followed by "...", and so ends in "...";
  otherwise the preview is the prompt unchanged. Hence the preview ends in "..." if and
  only if the prompt is longer than 100 or itself ends in "...".
\<close>

theorem preview_shape:
  "length (preview (fst (classify p st))) \<le> 103
   \<and> (100 < length (promptText p)
        \<longrightarrow> preview (fst (classify p st)) = take 100 (promptText p) @ js ''...'')
   \<and> (length (promptText p) \<le> 100 \<longrightarrow> preview (fst (classify p st)) = promptText p)
   \<and> (suffix (js ''...'') (preview (fst (classify p st)))
        \<longleftrightarrow> 100 < length (promptText p) \<or> suffix (js ''...'') (promptText p))"
  by (auto simp: classify_fields(4) make_preview_def js_def suffix_def)

theorem preview_shape_witness:
  "100 < length (promptText long_prompt)
   \<and> preview (fst (classify long_prompt module_patterns))
       = replicate 100 (of_char CHR ''a'') @ js ''...''
   \<and> length (preview (fst (classify long_prompt module_patterns))) = 103
   \<and> length (promptText loading) \<le> 100
   \<and> preview (fst (classify loading module_patterns)) = js ''Loading...''
   \<and> suffix (js ''...'') (preview (fst (classify loading module_patterns)))"
proof -
  have a: "length (promptText long_prompt) = 150" "length (promptText loading) = 10"
    by (simp_all add: long_prompt_def loading_def js_def)
  have b: "take 100 (promptText long_prompt) = replicate 100 (of_char CHR ''a'')"
    "promptText loading = js ''Loading...''" "length (js ''...'') = 3"
    by (simp_all add: long_prompt_def loading_def js_def)
  have c: "suffix (js ''...'') (js ''Loading...'')"
    by (simp add: js_def suffix_def)
  show ?thesis
    using preview_shape [of long_prompt module_patterns] preview_shape [of loading module_patterns]
    unfolding a by (simp add: b c)
qed

text \<open>
  C3. The tool applied to an empty batch answers with the canonical empty result: the four
  counts 0, no items, and the summary "No prompts provided for analysis."; it does so
  without a call of \<open>auditPrompts\<close>, whatever the pattern objects hold, and hands them back
  as they were.
\<close>

theorem empty_batch:
  "audit_prompts (Some []) st =
     (Inr \<lparr>totalFound = 0, userFacing = 0, internal = 0, needsReview = 0, prompts = [],
           summary = js ''No prompts provided for analysis.''\<rparr>, st)"
  by (simp add: audit_prompts_def)

text \<open>
  C4. The suggested action of every classified candidate is \<open>suggested_action\<close> of its context
  and confidence, and that function gives \<open>register_badge\<close> exactly for a user-facing
  context with confidence at least 70, \<open>audit_only\<close> exactly for an internal context with
  confidence at least 70, and \<open>review\<close> in every other case.
\<close>

theorem action_rule:
  "suggestedAction (fst (classify p st)) =
     suggested_action (ctx (fst (classify p st))) (confidence (fst (classify p st)))
   \<and> (suggested_action k n = Register_badge \<longleftrightarrow> k = User_facing \<and> 70 \<le> n)
   \<and> (suggested_action k n = Audit_only \<longleftrightarrow> k = Internal \<and> 70 \<le> n)
   \<and> (suggested_action k n = Review \<longleftrightarrow>
        \<not> (k = User_facing \<and> 70 \<le> n) \<and> \<not> (k = Internal \<and> 70 \<le> n))"
  by (simp add: classify_fields suggested_action_def)

theorem action_rule_witness:
  "suggestedAction (fst (classify route module_patterns)) = Audit_only
   \<and> ctx (fst (classify route module_patterns)) = Internal
   \<and> confidence (fst (classify route module_patterns)) = 90
   \<and> suggested_action User_facing 60 = Review
   \<and> suggested_action Internal 70 = Audit_only
   \<and> suggested_action Unknown 95 = Review"
  using action_rule [of route module_patterns Internal 90]
    action_rule [of route module_patterns User_facing 60]
    action_rule [of route module_patterns Internal 70]
    action_rule [of route module_patterns Unknown 95]
  by (simp add: route_classified)

text \<open>
  C5. A candidate whose path the public-file pattern matches (by \<open>isPublicFile_iff\<close>: the
  path contains "public/", or "PROMPT_" followed on the same line by ".txt", the case of
  letters ignored) is classified as user-facing with confidence 95, whatever else the path,
  the surrounding code and the pattern objects are: the public-file test is the first one.
\<close>

theorem public_file_first:
  assumes "isPublicFile (filePath p)"
  shows "ctx (fst (classify p st)) = User_facing \<and> confidence (fst (classify p st)) = 95"
  using assms by (simp add: classify_def Let_def case_prod_beta)

theorem public_file_first_witness:
  "isPublicFile (filePath public_api) \<and> isApiFile (filePath public_api)
   \<and> fst (some_test INTERNAL_PATTERNS (surrounding_of public_api) (filePath public_api))
   \<and> ctx (fst (classify public_api module_patterns)) = User_facing
   \<and> confidence (fst (classify public_api module_patterns)) = 95"
  using public_file_first [OF public_api_signals(1), of module_patterns] public_api_signals
  by simp

text \<open>
  C6. In the answer to any batch, \<open>userFacing\<close> is the number of items with a user-facing
  context, \<open>internal\<close> the number with an internal context, and \<open>needsReview\<close> the number
  whose context is unknown or whose confidence is below 70; \<open>totalFound\<close> is the size of
  the batch. So \<open>userFacing + internal\<close> is at most \<open>totalFound\<close>, and \<open>needsReview\<close> is at
  least the number of items with an unknown context.
\<close>

theorem aggregate_counts:
  assumes "audit_prompts (Some ps) st = (Inr r, st')"
  shows "userFacing r = length (filter (\<lambda>c. ctx c = User_facing) (prompts r))
       \<and> internal r = length (filter (\<lambda>c. ctx c = Internal) (prompts r))
       \<and> needsReview r = length (filter (\<lambda>c. ctx c = Unknown \<or> confidence c < 70) (prompts r))
       \<and> totalFound r = length ps
       \<and> userFacing r + internal r \<le> totalFound r
       \<and> length (filter (\<lambda>c. ctx c = Unknown) (prompts r)) \<le> needsReview r"
proof -
  note c = audit_prompts_counts [OF assms]
  have a: "length (filter (\<lambda>c. ctx c = User_facing) xs) + length (filter (\<lambda>c. ctx c = Internal) xs)
      \<le> length xs" for xs :: "PromptCandidate list"
    by (induction xs) auto
  have b: "length (filter (\<lambda>c. ctx c = Unknown) xs)
      \<le> length (filter (\<lambda>c. ctx c = Unknown \<or> confidence c < 70) xs)" for xs :: "PromptCandidate list"
    by (induction xs) auto
  show ?thesis
    using a [of "prompts r"] b [of "prompts r"] by (simp add: c(1-5))
qed

theorem aggregate_counts_witness:
  "audit_prompts (Some batch) module_patterns = (Inr batch_answer, module_patterns)
   \<and> userFacing batch_answer = 1 \<and> internal batch_answer = 1 \<and> needsReview batch_answer = 1
   \<and> totalFound batch_answer = 3 \<and> length batch = 3
   \<and> length (filter (\<lambda>c. ctx c = User_facing) (prompts batch_answer)) = 1
   \<and> length (filter (\<lambda>c. ctx c = Internal) (prompts batch_answer)) = 1
   \<and> length (filter (\<lambda>c. ctx c = Unknown \<or> confidence c < 70) (prompts batch_answer)) = 1"
proof -
  have "userFacing batch_answer = 1" "internal batch_answer = 1" "needsReview batch_answer = 1"
    "totalFound batch_answer = 3" "length batch = 3"
    by (simp_all add: batch_answer_def batch_def)
  with aggregate_counts [OF batch_result] batch_result show ?thesis
    by simp
qed

text \<open>
  C7. The summary of the answer to a non-empty batch is the template "Found {totalFound}
  prompts: {userFacing} user-facing (recommend badges), {internal} internal (audit only),
  {needsReview} need manual review." filled with the four counts of that answer.
\<close>

theorem summary_matches_template:
  assumes "ps \<noteq> []" and "audit_prompts (Some ps) st = (Inr r, st')"
  shows "summary r = summary_template (totalFound r) (userFacing r) (internal r) (needsReview r)"
  using assms(1)
  by (simp add: audit_prompts_result(1) [OF assms(2)] auditPrompts_def Let_def case_prod_beta
      summary_template_def js_def)

theorem summary_matches_template_witness:
  "batch \<noteq> []
   \<and> audit_prompts (Some batch) module_patterns = (Inr batch_answer, module_patterns)
   \<and> summary_template (totalFound batch_answer) (userFacing batch_answer)
        (internal batch_answer) (needsReview batch_answer)
     = js (''Found 3 prompts: 1 user-facing (recommend badges), ''
        @ ''1 internal (audit only), 1 need manual review.'')"
proof -
  have n: "batch \<noteq> []"
    by (simp add: batch_def)
  have "summary batch_answer = js (''Found 3 prompts: 1 user-facing (recommend badges), ''
        @ ''1 internal (audit only), 1 need manual review.'')"
    by (simp add: batch_answer_def)
  with summary_matches_template [OF n batch_result] n batch_result show ?thesis
    by simp
qed

text \<open>
  C8. The items of the result are the classifications of the candidates, in the order of
  the input: there are as many items as candidates, item \<open>i\<close> carries the path, line and
  text of candidate \<open>i\<close>, and it is the item that candidate \<open>i\<close> gets in a batch of its
  own, so nothing of it comes from another candidate of the batch.
\<close>

theorem items_in_input_order:
  assumes "audit_prompts (Some ps) module_patterns = (Inr r, st')"
  shows "length (prompts r) = length ps
       \<and> (\<forall>i<length ps.
             prompts r ! i = fst (classify (ps ! i) module_patterns)
           \<and> prompts (fst (auditPrompts [ps ! i] module_patterns)) = [prompts r ! i]
           \<and> filePath (prompts r ! i) = filePath (ps ! i)
           \<and> lineNumber (prompts r ! i) = lineNumber (ps ! i)
           \<and> promptText (prompts r ! i) = promptText (ps ! i))"
  by (simp add: audit_prompts_module(2) [OF assms] auditPrompts_module(2) classify_fields)

theorem items_in_input_order_witness:
  "audit_prompts (Some batch) module_patterns = (Inr batch_answer, module_patterns)
   \<and> length (prompts batch_answer) = length batch
   \<and> prompts batch_answer ! 1 = fst (classify (batch ! 1) module_patterns)
   \<and> prompts (fst (auditPrompts [batch ! 1] module_patterns)) = [prompts batch_answer ! 1]
   \<and> filePath (prompts batch_answer ! 1) = js ''src/api/chat/route.ts''
   \<and> filePath (batch ! 1) = js ''src/api/chat/route.ts''"
proof -
  note t = items_in_input_order [OF batch_result]
  have i: "(1::nat) < length batch"
    by (simp add: batch_def)
  from t have len: "length (prompts batch_answer) = length batch"
    by (rule conjunct1)
  from t i have at:
    "prompts batch_answer ! 1 = fst (classify (batch ! 1) module_patterns)
     \<and> prompts (fst (auditPrompts [batch ! 1] module_patterns)) = [prompts batch_answer ! 1]
     \<and> filePath (prompts batch_answer ! 1) = filePath (batch ! 1)"
    by blast
  have f: "filePath (batch ! 1) = js ''src/api/chat/route.ts''"
    by (simp add: batch_def route_def)
  show ?thesis
    using batch_result len at f by (simp add: classify_fields)
qed

text \<open>
  C9. Classification has no hidden state: no pattern that \<open>auditPrompts\<close> tests carries the
  \<open>g\<close> flag, so a call leaves the pattern objects as it found them. Hence a second call
  on the same batch, made after the first, gives the same answer; equal candidates at two
  places of one batch get equal items; and equal candidates in two successive calls get
  equal items, so the same context, confidence, suggested action and preview.
\<close>

theorem classification_deterministic:
  assumes "audit_prompts (Some ps) module_patterns = (Inr r1, st1)"
    and "audit_prompts (Some qs) st1 = (Inr r2, st2)"
  shows "st1 = module_patterns \<and> st2 = module_patterns
       \<and> (qs = ps \<longrightarrow> r2 = r1)
       \<and> (\<forall>i<length ps. \<forall>j<length ps. ps ! i = ps ! j \<longrightarrow> prompts r1 ! i = prompts r1 ! j)
       \<and> (\<forall>i<length ps. \<forall>j<length qs. ps ! i = qs ! j \<longrightarrow> prompts r1 ! i = prompts r2 ! j)"
proof -
  note a = audit_prompts_module [OF assms(1)]
  have b: "audit_prompts (Some qs) module_patterns = (Inr r2, st2)"
    using assms(2) by (simp add: a(1))
  note c = audit_prompts_module [OF b]
  have "r2 = r1" if "qs = ps"
    using assms(1) b that by simp
  then show ?thesis
    by (simp add: a c)
qed

theorem classification_deterministic_witness:
  "audit_prompts (Some [route, route]) module_patterns
     = (Inr (fst (auditPrompts [route, route] module_patterns)), module_patterns)
   \<and> audit_prompts (Some batch) module_patterns = (Inr batch_answer, module_patterns)
   \<and> prompts (fst (auditPrompts [route, route] module_patterns)) ! 0
     = prompts (fst (auditPrompts [route, route] module_patterns)) ! 1
   \<and> prompts (fst (auditPrompts [route, route] module_patterns)) ! 0 = prompts batch_answer ! 1"
proof -
  have h: "audit_prompts (Some [route, route]) module_patterns
      = (Inr (fst (auditPrompts [route, route] module_patterns)), module_patterns)"
    by (simp add: audit_prompts_some auditPrompts_module(1))
  note t = classification_deterministic [OF h batch_result]
  have "[route, route] ! 0 = [route, route] ! 1" "[route, route] ! 0 = batch ! 1"
    "(0::nat) < length [route, route]" "(1::nat) < length [route, route]" "(1::nat) < length batch"
    by (simp_all add: batch_def)
  with t have
    "prompts (fst (auditPrompts [route, route] module_patterns)) ! 0
       = prompts (fst (auditPrompts [route, route] module_patterns)) ! 1"
    "prompts (fst (auditPrompts [route, route] module_patterns)) ! 0 = prompts batch_answer ! 1"
    by blast+
  with h batch_result show ?thesis
    by simp
qed

text \<open>
  C10. Every item of an answer has one of the confidences 50, 60, 70, 75, 90, 95: 75 or 95
  with a user-facing context, 70 or 90 with an internal one, 50 or 60 with an unknown one.
  So its confidence is below 70 exactly when its context is unknown, \<open>needsReview\<close> is the
  number of items with an unknown context, and \<open>userFacing\<close>, \<open>internal\<close> and \<open>needsReview\<close>
  add up to \<open>totalFound\<close>.
\<close>

theorem three_buckets:
  assumes "audit_prompts (Some ps) st = (Inr r, st')"
  shows "(\<forall>c \<in> set (prompts r).
            confidence c \<in> {50, 60, 70, 75, 90, 95}
          \<and> (ctx c = User_facing \<longrightarrow> confidence c = 75 \<or> confidence c = 95)
          \<and> (ctx c = Internal \<longrightarrow> confidence c = 70 \<or> confidence c = 90)
          \<and> (ctx c = Unknown \<longrightarrow> confidence c = 50 \<or> confidence c = 60)
          \<and> (confidence c < 70 \<longleftrightarrow> ctx c = Unknown))
       \<and> needsReview r = length (filter (\<lambda>c. ctx c = Unknown) (prompts r))
       \<and> userFacing r + internal r + needsReview r = totalFound r"
proof -
  note c = audit_prompts_counts [OF assms]
  let ?ok = "\<lambda>c. (ctx c, confidence c) \<in>
     {(User_facing, 95), (User_facing, 75), (Internal, 90), (Internal, 70),
      (Unknown, 60), (Unknown, 50::nat)}"
  have ok: "list_all ?ok (prompts r)"
    by (rule audit_prompts_all [OF assms]) (rule classify_table)
  have 1: "\<forall>c \<in> set (prompts r).
            confidence c \<in> {50, 60, 70, 75, 90, 95}
          \<and> (ctx c = User_facing \<longrightarrow> confidence c = 75 \<or> confidence c = 95)
          \<and> (ctx c = Internal \<longrightarrow> confidence c = 70 \<or> confidence c = 90)
          \<and> (ctx c = Unknown \<longrightarrow> confidence c = 50 \<or> confidence c = 60)
          \<and> (confidence c < 70 \<longleftrightarrow> ctx c = Unknown)"
    using ok by (auto simp: list_all_iff)
  have 2: "list_all ?ok xs \<Longrightarrow>
      filter (\<lambda>c. ctx c = Unknown \<or> confidence c < 70) xs = filter (\<lambda>c. ctx c = Unknown) xs"
    for xs :: "PromptCandidate list"
    by (induction xs) auto
  have 3: "length (filter (\<lambda>c. ctx c = User_facing) xs) + length (filter (\<lambda>c. ctx c = Internal) xs)
      + length (filter (\<lambda>c. ctx c = Unknown) xs) = length xs" for xs :: "PromptCandidate list"
  proof (induction xs)
    case Nil
    show ?case by simp
  next
    case (Cons x xs)
    then show ?case by (cases "ctx x") simp_all
  qed
  show ?thesis
    using 1 3 [of "prompts r"] by (simp add: c(1,3,4,5) 2 [OF ok])
qed

theorem three_buckets_witness:
  "audit_prompts (Some batch) module_patterns = (Inr batch_answer, module_patterns)
   \<and> ctx (prompts batch_answer ! 2) = Unknown \<and> confidence (prompts batch_answer ! 2) = 50
   \<and> ctx (prompts batch_answer ! 0) = User_facing \<and> confidence (prompts batch_answer ! 0) = 75
   \<and> needsReview batch_answer = length (filter (\<lambda>c. ctx c = Unknown) (prompts batch_answer))
   \<and> userFacing batch_answer + internal batch_answer + needsReview batch_answer
     = totalFound batch_answer"
proof -
  have "ctx (prompts batch_answer ! 2) = Unknown" "confidence (prompts batch_answer ! 2) = 50"
    "ctx (prompts batch_answer ! 0) = User_facing" "confidence (prompts batch_answer ! 0) = 75"
    by (simp_all add: batch_answer_def)
  with three_buckets [OF batch_result] batch_result show ?thesis
    by simp
qed

end
